theory Spec2Isabelle
  imports Complex_Main
begin

section \<open>Numbers, arrays and props\<close>

text \<open>
  The component under study is \<^verbatim>\<open>BrushableAreaChart\<close>
  (src/src/components/LiquidityDepth/BrushableAreaChart.tsx). JavaScript numbers are
  modelled as the reals extended by \<open>NaN\<close>: the handler \<^verbatim>\<open>brushed\<close> tests for
  \<open>NaN\<close>, and everything else the component computes is field arithmetic. Rounding of
  IEEE doubles and the infinities are not modelled.
\<close>

datatype jsnum = NaN | Num real

fun isNaN :: "jsnum \<Rightarrow> bool" where
  "isNaN NaN = True"
| "isNaN (Num x) = False"

text \<open>
  A \<^verbatim>\<open>[number, number]\<close> array is a pair; an array object also has an identity, which
  \<^verbatim>\<open>===\<close> compares (line 272) while lodash's \<^verbatim>\<open>isEqual\<close> compares contents
  (line 135). An array reference is the pair of its identity and its contents;
  \<open>None\<close> is \<^verbatim>\<open>undefined\<close>.
\<close>

type_synonym pair = "jsnum \<times> jsnum"

type_synonym array_ref = "nat \<times> pair"

definition strict_eq :: "array_ref option \<Rightarrow> array_ref option \<Rightarrow> bool" where
  "strict_eq a b =
     (case a of
        None \<Rightarrow> (case b of None \<Rightarrow> True | Some y \<Rightarrow> False)
      | Some x \<Rightarrow> (case b of None \<Rightarrow> False | Some y \<Rightarrow> fst x = fst y))"

definition isEqual :: "array_ref option \<Rightarrow> array_ref option \<Rightarrow> bool" where
  "isEqual a b = (map_option snd a = map_option snd b)"

record ChartEntry =
  price0 :: real
  activeLiquidity :: real

record Dimensions =
  width :: real
  height :: real

record Margins =
  margin_top :: real
  margin_right :: real
  margin_bottom :: real
  margin_left :: real

text \<open>
  The props the behaviour depends on. \<^verbatim>\<open>styles\<close>, \<^verbatim>\<open>id\<close> and \<^verbatim>\<open>brushLabels\<close> only
  colour and name what is drawn and are left out; \<^verbatim>\<open>onBrushDomainChange\<close> is modelled
  by the list of payloads it was called with.
\<close>

record props =
  series :: "ChartEntry list"
  current :: real
  dimensions :: Dimensions
  margins :: Margins
  brushDomain :: "array_ref option"

section \<open>The d3 functions the component calls\<close>

text \<open>
  \<^verbatim>\<open>min(series, accessor)\<close> and \<^verbatim>\<open>max(series, accessor)\<close> of d3-array: one loop that
  keeps the extreme value seen so far, \<^verbatim>\<open>undefined\<close> for an empty input.
\<close>

fun d3_min_from :: "real option \<Rightarrow> real list \<Rightarrow> real option" where
  "d3_min_from acc [] = acc"
| "d3_min_from None (v # vs) = d3_min_from (Some v) vs"
| "d3_min_from (Some m) (v # vs) = d3_min_from (if m > v then Some v else Some m) vs"

fun d3_max_from :: "real option \<Rightarrow> real list \<Rightarrow> real option" where
  "d3_max_from acc [] = acc"
| "d3_max_from None (v # vs) = d3_max_from (Some v) vs"
| "d3_max_from (Some m) (v # vs) = d3_max_from (if m < v then Some v else Some m) vs"

definition d3_min :: "real list \<Rightarrow> real option" where
  "d3_min vs = d3_min_from None vs"

definition d3_max :: "real list \<Rightarrow> real option" where
  "d3_max vs = d3_max_from None vs"

text \<open>
  \<^verbatim>\<open>scaleLinear()\<close> of d3-scale with a two-point domain and range. \<^verbatim>\<open>normalize(a, b)\<close>
  is \<open>x \<mapsto> (x - a) / (b - a)\<close>, or the constant one half when \<open>b = a\<close>;
  \<^verbatim>\<open>interpolateNumber(a, b)\<close> is \<open>t \<mapsto> a (1 - t) + b t\<close>; \<^verbatim>\<open>bimap\<close> composes them and
  swaps both ends when the domain is descending. The scale is \<^verbatim>\<open>bimap(domain, range)\<close>
  and its inverse is \<^verbatim>\<open>bimap(range, domain)\<close>. The scale answers \<open>NaN\<close> with no
  number; the inverse has no such test.

  The numbers of the model are exact reals, where d3 computes in IEEE doubles. The
  statements below use the scale and its inverse as data flow (which value is passed
  through which function) or at values where the double arithmetic is exact; none of
  them rests on a scale and its inverse undoing each other, or on the scale keeping
  the order of two numbers, which rounding can break.
\<close>

record linear_scale =
  sc_domain :: "real \<times> real"
  sc_range :: "real \<times> real"

definition normalize :: "real \<Rightarrow> real \<Rightarrow> real \<Rightarrow> real" where
  "normalize a b x = (if b - a = 0 then 1 / 2 else (x - a) / (b - a))"

definition interpolateNumber :: "real \<Rightarrow> real \<Rightarrow> real \<Rightarrow> real" where
  "interpolateNumber a b t = a * (1 - t) + b * t"

definition bimap :: "real \<times> real \<Rightarrow> real \<times> real \<Rightarrow> real \<Rightarrow> real" where
  "bimap d r x =
     (if snd d < fst d
      then interpolateNumber (snd r) (fst r) (normalize (snd d) (fst d) x)
      else interpolateNumber (fst r) (snd r) (normalize (fst d) (snd d) x))"

definition scale_apply :: "linear_scale \<Rightarrow> jsnum \<Rightarrow> jsnum" where
  "scale_apply s x =
     (case x of NaN \<Rightarrow> NaN | Num v \<Rightarrow> Num (bimap (sc_domain s) (sc_range s) v))"

definition scale_invert :: "linear_scale \<Rightarrow> jsnum \<Rightarrow> jsnum" where
  "scale_invert s y =
     (case y of
        NaN \<Rightarrow> (if snd (sc_range s) - fst (sc_range s) = 0
                then Num (bimap (sc_range s) (sc_domain s) 0) else NaN)
      | Num v \<Rightarrow> Num (bimap (sc_range s) (sc_domain s) v))"

text \<open>
  A d3-zoom transform \<open>{k, x, y}\<close>. \<^verbatim>\<open>transform.rescaleX(s)\<close> is a copy of \<open>s\<close> whose
  domain is the range of \<open>s\<close> sent through \<^verbatim>\<open>invertX\<close> (\<open>p \<mapsto> (p - x) / k\<close>) and then
  through the inverse of \<open>s\<close>. The zoom behaviour of line 245 keeps \<open>k\<close> within
  \<^verbatim>\<open>scaleExtent([0.5, 5])\<close>; division by a zero \<open>k\<close> is outside the model.
\<close>

record ZoomTransform =
  zk :: real
  zx :: real
  zy :: real

definition invertX :: "ZoomTransform \<Rightarrow> real \<Rightarrow> real" where
  "invertX t p = (p - zx t) / zk t"

definition rescaleX :: "ZoomTransform \<Rightarrow> linear_scale \<Rightarrow> linear_scale" where
  "rescaleX t s =
     s\<lparr>sc_domain :=
         (bimap (sc_range s) (sc_domain s) (invertX t (fst (sc_range s))),
          bimap (sc_range s) (sc_domain s) (invertX t (snd (sc_range s))))\<rparr>"

section \<open>getScales and the handle glyph\<close>

text \<open>
  \<^verbatim>\<open>getScales\<close> (lines 73-82). The cast \<^verbatim>\<open>as number[]\<close> asserts that the extrema
  exist; \<open>None\<close> stands for the scales over an undefined domain, which only an empty
  series gives and which line 143 excludes.
\<close>

definition getScales ::
  "ChartEntry list \<Rightarrow> real \<Rightarrow> real \<Rightarrow> Margins \<Rightarrow> (linear_scale \<times> linear_scale) option" where
  "getScales srs w h margin =
     (case d3_min (map price0 srs) of
        None \<Rightarrow> None
      | Some lo \<Rightarrow>
          (case d3_max (map price0 srs) of
             None \<Rightarrow> None
           | Some hi \<Rightarrow>
               (case d3_max (map activeLiquidity srs) of
                  None \<Rightarrow> None
                | Some liq \<Rightarrow>
                    Some (\<lparr>sc_domain = (lo, hi),
                            sc_range = (margin_left margin, w - margin_right margin)\<rparr>,
                          \<lparr>sc_domain = (0, liq),
                            sc_range = (h - margin_bottom margin, margin_top margin)\<rparr>))))"

text \<open>\<^verbatim>\<open>brushHandlePath\<close> (lines 96-108): the path commands, in the order joined.\<close>

datatype path_cmd =
  MoveTo real real
  | LineTo real real
  | HRel real
  | QRel real real real real
  | VRel real
  | ClosePath

definition brushHandlePath :: "real \<Rightarrow> path_cmd list" where
  "brushHandlePath h =
     [MoveTo 0 h, LineTo 0 1, HRel 10, QRel 5 0 5 5, VRel 15, QRel 0 5 (- 5) 5, HRel (- 10),
      ClosePath]"

section \<open>The brush handler\<close>

datatype handle_type = W | E

text \<open>
  A \<^verbatim>\<open>.v-brush-handle\<close> path element: the datum bound to it, its \<^verbatim>\<open>display\<close>
  attribute (\<open>None\<close> when the attribute is absent), its \<^verbatim>\<open>transform\<close> (the translation
  \<^verbatim>\<open>selection[i]\<close>, \<open>None\<close> for an index outside the array, and the horizontal factor of
  \<^verbatim>\<open>scale(e, 1)\<close>) and its \<^verbatim>\<open>d\<close>.
\<close>

record handle =
  h_type :: handle_type
  h_display :: "string option"
  h_transform :: "(jsnum option \<times> int) option"
  h_d :: "path_cmd list"

datatype event_type = Start | Brush | End

record brush_event =
  ev_type :: event_type
  ev_selection :: "pair option"

definition hide :: "handle \<Rightarrow> handle" where
  "hide h = h\<lparr>h_display := Some ''none''\<rparr>"

definition selection_at :: "pair \<Rightarrow> nat \<Rightarrow> jsnum option" where
  "selection_at sel i = (if i = 0 then Some (fst sel) else if i = 1 then Some (snd sel) else None)"

definition move_handle :: "pair \<Rightarrow> nat \<times> handle \<Rightarrow> handle" where
  "move_handle sel ih =
     (snd ih)\<lparr>h_display := None,
              h_transform :=
                Some (selection_at sel (fst ih), if h_type (snd ih) = E then 1 else - 1)\<rparr>"

definition move_handles :: "pair \<Rightarrow> handle list \<Rightarrow> handle list" where
  "move_handles sel hs = map (move_handle sel) (enumerate 0 hs)"

text \<open>
  \<^verbatim>\<open>brushed\<close> (lines 149-170), closed over the \<^verbatim>\<open>xScale\<close> of the render pass that
  created it. It returns the handles as it leaves them and the payloads it passed to
  \<^verbatim>\<open>onBrushDomainChange\<close>.
\<close>

definition brushed :: "linear_scale \<Rightarrow> brush_event \<Rightarrow> handle list \<Rightarrow> handle list \<times> pair list" where
  "brushed xScale ev hs =
     (case ev_selection ev of
        None \<Rightarrow> (map hide hs, [])
      | Some sel \<Rightarrow>
          if isNaN (fst sel) \<or> isNaN (snd sel) then (map hide hs, [])
          else (move_handles sel hs,
                if ev_type ev = End
                then [(scale_invert xScale (fst sel), scale_invert xScale (snd sel))]
                else []))"

text \<open>The handler run on a sequence of brush events, the payloads collected in order.\<close>

fun dispatch :: "linear_scale \<Rightarrow> brush_event list \<Rightarrow> handle list \<Rightarrow> handle list \<times> pair list" where
  "dispatch xScale [] hs = (hs, [])"
| "dispatch xScale (ev # evs) hs =
     (let r1 = brushed xScale ev hs;
          r2 = dispatch xScale evs (fst r1)
      in (fst r2, snd r1 @ snd r2))"

text \<open>
  A drag gesture as d3-brush reports it: one \<^verbatim>\<open>start\<close> event, one \<^verbatim>\<open>brush\<close> event per
  pointer move, one \<^verbatim>\<open>end\<close> event.
\<close>

definition gesture :: "pair option \<Rightarrow> pair option list \<Rightarrow> pair option \<Rightarrow> brush_event list" where
  "gesture s0 moves s1 =
     \<lparr>ev_type = Start, ev_selection = s0\<rparr>
       # map (\<lambda>s. \<lparr>ev_type = Brush, ev_selection = s\<rparr>) moves
       @ [\<lparr>ev_type = End, ev_selection = s1\<rparr>]"

text \<open>
  \<^verbatim>\<open>brush.move(group, selection)\<close> of d3-brush sets the brush's selection and emits
  \<^verbatim>\<open>start\<close>, \<^verbatim>\<open>brush\<close> and \<^verbatim>\<open>end\<close> to the brush's listeners, each with that
  selection.
\<close>

definition brush_move :: "linear_scale \<Rightarrow> pair \<Rightarrow> handle list \<Rightarrow> handle list \<times> pair list" where
  "brush_move xScale sel hs = dispatch xScale (gesture (Some sel) [Some sel] (Some sel)) hs"

section \<open>The render pass\<close>

text \<open>
  What the effect of lines 142-307 reads and writes outside its arguments: the two refs
  of lines 120-121, the attributes it sets on the drawing, the listeners it installs
  (each is a closure; what it captured is recorded) and the handle elements under
  \<^verbatim>\<open>#brush\<close>. The area is kept as the coordinates the generator is given per entry
  (\<open>x\<close>, \<open>y0\<close>, \<open>y1\<close>), the axis as its offset and the domain it is built from.
  Transitions are taken at their end values.
\<close>

record scene =
  wrapperRef :: bool
  svgRef :: bool
  svg_size :: "(real \<times> real) option"
  area_path :: "(jsnum \<times> jsnum \<times> jsnum) list option"
  current_line :: "jsnum option"
  x_axis :: "(real \<times> real \<times> real) option"
  zoom_listener :: "array_ref option option"
  brush_listener :: "linear_scale option"
  handles :: "handle list"

datatype error = TypeError | ReferenceError

record pass_result =
  pr_scene :: scene
  pr_emitted :: "pair list"
  pr_scales :: "(linear_scale \<times> linear_scale) option"

text \<open>
  Lines 181-187: the scales of a pass, the horizontal domain replaced by the rescaled
  one when a zoom transform is held.
\<close>

definition pass_scales ::
  "props \<Rightarrow> ZoomTransform option \<Rightarrow> (linear_scale \<times> linear_scale) option" where
  "pass_scales p currentZoomState =
     (case getScales (series p) (width (dimensions p)) (height (dimensions p)) (margins p) of
        None \<Rightarrow> None
      | Some xy \<Rightarrow>
          (case currentZoomState of
             None \<Rightarrow> Some xy
           | Some t \<Rightarrow>
               Some ((fst xy)\<lparr>sc_domain := sc_domain (rescaleX t (fst xy))\<rparr>, snd xy)))"

text \<open>Lines 189-259: root attributes, area, current price line, axis, zoom listener.\<close>

definition draw_content ::
  "props \<Rightarrow> array_ref option \<Rightarrow> linear_scale \<Rightarrow> linear_scale \<Rightarrow> scene \<Rightarrow> scene" where
  "draw_content p localSel xScale yScale sc =
     sc\<lparr>svg_size := Some (width (dimensions p), height (dimensions p)),
        area_path :=
          Some (map (\<lambda>d. (scale_apply xScale (Num (price0 d)),
                           scale_apply yScale (Num 0),
                           scale_apply yScale (Num (activeLiquidity d))))
                  (series p)),
        current_line := Some (scale_apply xScale (Num (current p))),
        x_axis :=
          Some (height (dimensions p) - margin_bottom (margins p),
                fst (sc_domain xScale), snd (sc_domain xScale)),
        zoom_listener := Some localSel\<rparr>"

text \<open>
  Lines 281-292: \<^verbatim>\<open>selectAll('.v-brush-handle').data([w, e]).enter().append('path')\<close>.
  The join is by index: an element that exists is rebound to the datum at its index, a
  datum with no element enters and is appended with its attributes, an element with no
  datum is left as it is.
\<close>

definition new_handle :: "real \<Rightarrow> handle_type \<Rightarrow> handle" where
  "new_handle h t =
     \<lparr>h_type = t, h_display = None, h_transform = None, h_d = brushHandlePath h\<rparr>"

fun enter_append :: "real \<Rightarrow> handle_type list \<Rightarrow> handle list \<Rightarrow> handle list" where
  "enter_append h [] hs = hs"
| "enter_append h (t # ts) [] = map (new_handle h) (t # ts)"
| "enter_append h (t # ts) (x # xs) = x\<lparr>h_type := t\<rparr> # enter_append h ts xs"

text \<open>
  The effect body. \<^verbatim>\<open>dimensions\<close> is a required object prop, so line 146 takes width
  and height from it. The branch of lines 272-279 attaches the brush of this pass and
  moves it to \<^verbatim>\<open>localSelection.map(xScale)\<close>; \<^verbatim>\<open>map\<close> on \<^verbatim>\<open>undefined\<close> raises a
  TypeError, which ends the pass there. The case of no scales is never reached: past
  the guard the series is not empty (lemma \<open>pass_scales_nonempty\<close>).
\<close>

definition render_pass ::
  "props \<Rightarrow> ZoomTransform option \<Rightarrow> array_ref option \<Rightarrow> array_ref option \<Rightarrow> scene
     \<Rightarrow> error + pass_result" where
  "render_pass p currentZoomState localSel previousDomain sc =
     (if \<not> wrapperRef sc \<or> \<not> svgRef sc \<or> length (series p) = 0
      then Inr \<lparr>pr_scene = sc, pr_emitted = [], pr_scales = None\<rparr>
      else
        (case pass_scales p currentZoomState of
           None \<Rightarrow> Inl TypeError
         | Some xy \<Rightarrow>
             let sc1 = draw_content p localSel (fst xy) (snd xy) sc in
             if brushDomain p \<noteq> None \<and> strict_eq previousDomain (brushDomain p)
             then
               (case localSel of
                  None \<Rightarrow> Inl TypeError
                | Some l \<Rightarrow>
                    let moved =
                          brush_move (fst xy)
                            (scale_apply (fst xy) (fst (snd l)), scale_apply (fst xy) (snd (snd l)))
                            (handles sc1)
                    in Inr \<lparr>pr_scene =
                              sc1\<lparr>brush_listener := Some (fst xy),
                                  handles :=
                                    enter_append (height (dimensions p)) [W, E] (fst moved)\<rparr>,
                            pr_emitted = snd moved,
                            pr_scales = Some xy\<rparr>)
             else
               Inr \<lparr>pr_scene =
                       sc1\<lparr>handles := enter_append (height (dimensions p)) [W, E] (handles sc1)\<rparr>,
                     pr_emitted = [],
                     pr_scales = Some xy\<rparr>))"

section \<open>The component\<close>

text \<open>
  Lines 134-139: the effect that mirrors \<^verbatim>\<open>brushDomain\<close> into \<^verbatim>\<open>localSelection\<close>. It
  returns the local selection the next render sees.
\<close>

definition sync_effect :: "array_ref option \<Rightarrow> array_ref option \<Rightarrow> array_ref option" where
  "sync_effect bd localSel =
     (case bd of
        None \<Rightarrow> localSel
      | Some b \<Rightarrow> if \<not> isEqual (Some b) localSel then Some b else localSel)"

text \<open>
  Lines 172-178: \<^verbatim>\<open>zoomed\<close> stores the transform; then, when the \<^verbatim>\<open>localSelection\<close>
  it closed over is defined, it evaluates \<^verbatim>\<open>currentSelection\<close>, a name no scope
  declares, which raises a ReferenceError inside the listener before
  \<^verbatim>\<open>setLocalSelection\<close> is called. The result is the zoom state and local selection
  after the listener, and the error it raised.
\<close>

definition zoomed ::
  "array_ref option \<Rightarrow> ZoomTransform \<Rightarrow> ZoomTransform option \<times> array_ref option
     \<Rightarrow> (ZoomTransform option \<times> array_ref option) \<times> error option" where
  "zoomed closedSel t st =
     ((Some t, snd st), if closedSel \<noteq> None then Some ReferenceError else None)"

text \<open>
  Modelled from the spec: \<^verbatim>\<open>usePrevious\<close> (imported from hooks/usePrevious at line 4;
  its file is not among the sources). The spec, section 4.4 step 1: "Maintain the
  previous value of the externally supplied SelectionDomain (one-slot history, not a
  full log)". Given the slot and the value of this render it returns the value of the
  previous render and the slot refilled with the current one.
\<close>

definition usePrevious :: "'a option \<Rightarrow> 'a option \<Rightarrow> 'a option \<times> 'a option" where
  "usePrevious slot v = (slot, v)"

record component =
  currentZoomState :: "ZoomTransform option"
  localSelection :: "array_ref option"
  previousSlot :: "array_ref option"
  dom :: scene
  calls :: "pair list"
  uncaught :: "error list"

text \<open>
  One render with its effects, in the order the hooks are declared: the slot of
  \<^verbatim>\<open>usePrevious\<close> is refilled, the mirror effect sets the local selection for the next
  render, and the drawing effect runs with the values this render closed over. React
  runs an effect only when one of its dependencies changed; the model runs the effects
  on every render, so every execution React performs is one of the model's. An error
  raised by an effect ends the run.
\<close>

definition render_step :: "props \<Rightarrow> component \<Rightarrow> error + component" where
  "render_step p st =
     (let prev = usePrevious (previousSlot st) (brushDomain p) in
      case render_pass p (currentZoomState st) (localSelection st) (fst prev) (dom st) of
        Inl e \<Rightarrow> Inl e
      | Inr r \<Rightarrow>
          Inr (st\<lparr>previousSlot := snd prev,
                  localSelection := sync_effect (brushDomain p) (localSelection st),
                  dom := pr_scene r,
                  calls := calls st @ pr_emitted r\<rparr>))"

datatype action = Render props | BrushEvent brush_event | ZoomEvent ZoomTransform

text \<open>
  A brush or zoom event reaches the listener installed by the last pass that attached
  one; with no listener nothing happens. An error raised inside a listener is reported
  (\<open>uncaught\<close>) and does not end the run.
\<close>

fun step :: "action \<Rightarrow> component \<Rightarrow> error + component" where
  "step (Render p) st = render_step p st"
| "step (BrushEvent ev) st =
     (case brush_listener (dom st) of
        None \<Rightarrow> Inr st
      | Some xScale \<Rightarrow>
          let r = brushed xScale ev (handles (dom st))
          in Inr (st\<lparr>dom := (dom st)\<lparr>handles := fst r\<rparr>, calls := calls st @ snd r\<rparr>))"
| "step (ZoomEvent t) st =
     (case zoom_listener (dom st) of
        None \<Rightarrow> Inr st
      | Some closedSel \<Rightarrow>
          let r = zoomed closedSel t (currentZoomState st, localSelection st)
          in Inr (st\<lparr>currentZoomState := fst (fst r),
                     localSelection := snd (fst r),
                     uncaught := uncaught st @ (case snd r of None \<Rightarrow> [] | Some e \<Rightarrow> [e])\<rparr>))"

fun run :: "action list \<Rightarrow> component \<Rightarrow> error + component" where
  "run [] st = Inr st"
| "run (a # as) st = (case step a st of Inl e \<Rightarrow> Inl e | Inr st' \<Rightarrow> run as st')"

text \<open>The component as mounted: both refs attached, nothing drawn, no state.\<close>

definition mounted_scene :: scene where
  "mounted_scene =
     \<lparr>wrapperRef = True, svgRef = True, svg_size = None, area_path = None,
      current_line = None, x_axis = None, zoom_listener = None, brush_listener = None,
      handles = []\<rparr>"

definition mounted :: component where
  "mounted =
     \<lparr>currentZoomState = None, localSelection = None, previousSlot = None,
      dom = mounted_scene, calls = [], uncaught = []\<rparr>"

section \<open>Vocabulary of the claims\<close>



text \<open>What a pass passed to \<^verbatim>\<open>onBrushDomainChange\<close>; \<open>None\<close> when the pass raised.\<close>

definition emitted_of :: "error + pass_result \<Rightarrow> pair list option" where
  "emitted_of x = (case x of Inl e \<Rightarrow> None | Inr r \<Rightarrow> Some (pr_emitted r))"



text \<open>
  A sequence of render passes over one drawing, each with its own props, zoom state,
  local selection and previous domain; an error of a pass ends the sequence.
\<close>

fun render_passes ::
  "(props \<times> ZoomTransform option \<times> array_ref option \<times> array_ref option) list \<Rightarrow> scene
     \<Rightarrow> error + scene" where
  "render_passes [] sc = Inr sc"
| "render_passes (x # xs) sc =
     (case render_pass (fst x) (fst (snd x)) (fst (snd (snd x))) (snd (snd (snd x))) sc of
        Inl e \<Rightarrow> Inl e
      | Inr r \<Rightarrow> render_passes xs (pr_scene r))"

text \<open>A drawing whose refs are attached and whose handles are the west and the east one.\<close>

definition handles_ok :: "scene \<Rightarrow> bool" where
  "handles_ok sc \<longleftrightarrow> wrapperRef sc \<and> svgRef sc \<and> map h_type (handles sc) = [W, E]"

text \<open>
  The state a render starts from is consistent when a filled slot of \<^verbatim>\<open>usePrevious\<close>
  comes with a defined local selection.
\<close>

definition slot_ok :: "component \<Rightarrow> bool" where
  "slot_ok st \<longleftrightarrow> (previousSlot st \<noteq> None \<longrightarrow> localSelection st \<noteq> None)"

text \<open>
  The chart of the spec's scenario: prices from 0 to 1000, 500 by 300 pixels, bottom
  margin 20; and its drawing once the two handles exist.
\<close>

definition chart_props :: "array_ref option \<Rightarrow> props" where
  "chart_props bd =
     \<lparr>series = [\<lparr>price0 = 0, activeLiquidity = 5\<rparr>, \<lparr>price0 = 400, activeLiquidity = 9\<rparr>,
                \<lparr>price0 = 1000, activeLiquidity = 7\<rparr>],
      current = 500,
      dimensions = \<lparr>width = 500, height = 300\<rparr>,
      margins = \<lparr>margin_top = 0, margin_right = 0, margin_bottom = 20, margin_left = 0\<rparr>,
      brushDomain = bd\<rparr>"

definition chart_scale :: linear_scale where
  "chart_scale = \<lparr>sc_domain = (0, 1000), sc_range = (0, 500)\<rparr>"

definition chart_scene :: scene where
  "chart_scene = mounted_scene\<lparr>handles := [new_handle 300 W, new_handle 300 E]\<rparr>"

section \<open>Facts about the d3 functions\<close>

text \<open>
  With a series that is not empty the extrema exist and \<open>getScales\<close> has its scales.
\<close>

lemma d3_min_from_Some: "\<exists>m. d3_min_from (Some a) vs = Some m"
  by (induction vs arbitrary: a) auto

lemma d3_max_from_Some: "\<exists>m. d3_max_from (Some a) vs = Some m"
  by (induction vs arbitrary: a) auto

lemma d3_min_None_iff: "d3_min vs = None \<longleftrightarrow> vs = []"
proof (cases vs)
  case Nil
  then show ?thesis by (simp add: d3_min_def)
next
  case (Cons v ws)
  obtain m where "d3_min_from (Some v) ws = Some m"
    using d3_min_from_Some by blast
  with Cons show ?thesis by (simp add: d3_min_def)
qed

lemma d3_max_None_iff: "d3_max vs = None \<longleftrightarrow> vs = []"
proof (cases vs)
  case Nil
  then show ?thesis by (simp add: d3_max_def)
next
  case (Cons v ws)
  obtain m where "d3_max_from (Some v) ws = Some m"
    using d3_max_from_Some by blast
  with Cons show ?thesis by (simp add: d3_max_def)
qed

lemma getScales_nonempty:
  assumes "srs \<noteq> []"
  shows "\<exists>lo hi liq. d3_min (map price0 srs) = Some lo \<and> d3_max (map price0 srs) = Some hi
     \<and> d3_max (map activeLiquidity srs) = Some liq
     \<and> getScales srs w h m =
        Some (\<lparr>sc_domain = (lo, hi), sc_range = (margin_left m, w - margin_right m)\<rparr>,
              \<lparr>sc_domain = (0, liq), sc_range = (h - margin_bottom m, margin_top m)\<rparr>)"
proof -
  from assms obtain lo where lo: "d3_min (map price0 srs) = Some lo"
    using d3_min_None_iff [of "map price0 srs"] by auto
  from assms obtain hi where hi: "d3_max (map price0 srs) = Some hi"
    using d3_max_None_iff [of "map price0 srs"] by auto
  from assms obtain liq where liq: "d3_max (map activeLiquidity srs) = Some liq"
    using d3_max_None_iff [of "map activeLiquidity srs"] by auto
  show ?thesis by (simp add: getScales_def lo hi liq)
qed

section \<open>Facts about the brush handler\<close>

text \<open>
  Only an \<^verbatim>\<open>end\<close> event can reach the callback, and what the handler passes to it
  does not depend on the handles.
\<close>

lemma dispatch_append:
  "dispatch xScale (as @ bs) hs =
     (fst (dispatch xScale bs (fst (dispatch xScale as hs))),
      snd (dispatch xScale as hs) @ snd (dispatch xScale bs (fst (dispatch xScale as hs))))"
  by (induction as arbitrary: hs) (simp_all add: Let_def)

lemma brushed_not_end: "ev_type ev \<noteq> End \<Longrightarrow> snd (brushed xScale ev hs) = []"
  by (simp add: brushed_def split: option.splits)

lemma dispatch_no_end:
  "\<forall>ev \<in> set evs. ev_type ev \<noteq> End \<Longrightarrow> snd (dispatch xScale evs hs) = []"
  by (induction evs arbitrary: hs) (simp_all add: Let_def brushed_not_end)

lemma brushed_end_finite:
  "snd (brushed xScale \<lparr>ev_type = End, ev_selection = Some (Num p0, Num p1)\<rparr> hs) =
     [(scale_invert xScale (Num p0), scale_invert xScale (Num p1))]"
  by (simp add: brushed_def)

lemma brushed_emitted_indep: "snd (brushed xScale ev hs) = snd (brushed xScale ev [])"
  by (simp add: brushed_def split: option.splits)

lemma gesture_emitted:
  "snd (dispatch xScale (gesture s0 moves s1) hs) =
     snd (brushed xScale \<lparr>ev_type = End, ev_selection = s1\<rparr> [])"
proof -
  let ?pre = "\<lparr>ev_type = Start, ev_selection = s0\<rparr>
           # map (\<lambda>s. \<lparr>ev_type = Brush, ev_selection = s\<rparr>) moves"
  let ?e = "\<lparr>ev_type = End, ev_selection = s1\<rparr>"
  have pre: "snd (dispatch xScale ?pre hs) = []"
    by (rule dispatch_no_end) auto
  have g: "gesture s0 moves s1 = ?pre @ [?e]"
    by (simp add: gesture_def)
  have "snd (dispatch xScale (?pre @ [?e]) hs) =
      snd (brushed xScale ?e (fst (dispatch xScale ?pre hs)))"
    unfolding dispatch_append using pre by (simp add: Let_def)
  also have "\<dots> = snd (brushed xScale ?e [])"
    by (rule brushed_emitted_indep)
  finally show ?thesis by (simp only: g)
qed

lemma brush_move_emitted:
  "snd (brush_move xScale sel hs) =
     (if isNaN (fst sel) \<or> isNaN (snd sel) then []
      else [(scale_invert xScale (fst sel), scale_invert xScale (snd sel))])"
  by (simp add: brush_move_def gesture_emitted brushed_def)



lemma move_handles_types: "map h_type (move_handles sel hs) = map h_type hs"
proof -
  have "map (h_type \<circ> move_handle sel) (enumerate n hs) = map h_type hs" for n
    by (induction hs arbitrary: n) (simp_all add: move_handle_def)
  then show ?thesis by (simp add: move_handles_def)
qed

lemma brushed_types: "map h_type (fst (brushed xScale ev hs)) = map h_type hs"
proof -
  have "map h_type (map hide hs) = map h_type hs"
    by (simp add: hide_def)
  then show ?thesis
    by (simp add: brushed_def move_handles_types split: option.splits)
qed

lemma dispatch_types: "map h_type (fst (dispatch xScale evs hs)) = map h_type hs"
  by (induction evs arbitrary: hs) (simp_all add: Let_def brushed_types)

lemma brush_move_types: "map h_type (fst (brush_move xScale sel hs)) = map h_type hs"
  by (simp add: brush_move_def dispatch_types)

section \<open>Facts about the render pass\<close>


lemma pass_scales_nonempty:
  assumes "series p \<noteq> []"
  shows "\<exists>xy. pass_scales p z = Some xy"
proof -
  from getScales_nonempty [OF assms, of "width (dimensions p)" "height (dimensions p)" "margins p"]
  obtain xy where
    "getScales (series p) (width (dimensions p)) (height (dimensions p)) (margins p) = Some xy"
    by blast
  then show ?thesis by (cases z) (simp_all add: pass_scales_def)
qed

text \<open>
  A pass that does not take the branch of lines 272-279 raises nothing and calls nothing;
  a pass raises only in that branch, with no local selection.
\<close>

lemma render_pass_no_branch:
  assumes "brushDomain p = None \<or> \<not> strict_eq prev (brushDomain p)"
  shows "\<exists>r. render_pass p z ls prev sc = Inr r \<and> pr_emitted r = []"
proof (cases "\<not> wrapperRef sc \<or> \<not> svgRef sc \<or> length (series p) = 0")
  case True
  then show ?thesis by (auto simp add: render_pass_def)
next
  case False
  then have "series p \<noteq> []" by simp
  from pass_scales_nonempty [OF this] obtain xy where "pass_scales p z = Some xy"
    by blast
  with False assms show ?thesis
    by (auto simp add: render_pass_def Let_def)
qed

lemma render_pass_raises:
  assumes "render_pass p z ls prev sc = Inl e"
  shows "ls = None \<and> brushDomain p \<noteq> None \<and> strict_eq prev (brushDomain p)"
proof -
  have skip: "\<not> (\<not> wrapperRef sc \<or> \<not> svgRef sc \<or> length (series p) = 0)"
  proof
    assume "\<not> wrapperRef sc \<or> \<not> svgRef sc \<or> length (series p) = 0"
    then have "render_pass p z ls prev sc = Inr \<lparr>pr_scene = sc, pr_emitted = [], pr_scales = None\<rparr>"
      by (simp add: render_pass_def)
    with assms show False by simp
  qed
  then have "series p \<noteq> []" by simp
  from pass_scales_nonempty [OF this] obtain xy where "pass_scales p z = Some xy"
    by blast
  with assms skip show ?thesis
    by (cases ls) (auto simp add: render_pass_def Let_def split: if_splits)
qed

lemma render_pass_total:
  assumes "ls \<noteq> None \<or> brushDomain p = None \<or> \<not> strict_eq prev (brushDomain p)"
  shows "\<exists>r. render_pass p z ls prev sc = Inr r"
proof (cases "render_pass p z ls prev sc")
  case (Inl e)
  from render_pass_raises [OF Inl] assms show ?thesis by simp
next
  case (Inr r)
  then show ?thesis by simp
qed

text \<open>
  The brush is attached in the branch of lines 272-279 only: a pass that takes it installs
  the handler closed over its own horizontal scale, any other pass leaves the installed
  handler, with the scale of the pass that attached it.
\<close>

lemma render_pass_listener:
  assumes "render_pass p z ls prev sc = Inr r"
  shows "brush_listener (pr_scene r) =
     (if wrapperRef sc \<and> svgRef sc \<and> series p \<noteq> [] \<and> brushDomain p \<noteq> None
         \<and> strict_eq prev (brushDomain p)
      then map_option fst (pass_scales p z) else brush_listener sc)"
proof (cases "\<not> wrapperRef sc \<or> \<not> svgRef sc \<or> length (series p) = 0")
  case True
  with assms show ?thesis by (auto simp add: render_pass_def)
next
  case False
  then have "series p \<noteq> []" by simp
  from pass_scales_nonempty [OF this] obtain xy where ps: "pass_scales p z = Some xy"
    by blast
  from assms False ps show ?thesis
    by (cases ls) (auto simp add: render_pass_def Let_def draw_content_def split: if_splits)
qed

text \<open>
  The join of lines 281-292 appends what is missing: both handles to an empty group,
  nothing once the two exist.
\<close>

lemma handles_draw_content [simp]: "handles (draw_content p l x y sc) = handles sc"
  by (simp add: draw_content_def)


lemma enter_append_types:
  assumes "map h_type hs = [W, E]"
  shows "map h_type (enter_append h [W, E] hs) = [W, E]"
  using assms by (cases hs; cases "tl hs") auto

lemma render_pass_scene:
  assumes "render_pass p z ls prev sc = Inr r"
  shows "wrapperRef (pr_scene r) = wrapperRef sc \<and> svgRef (pr_scene r) = svgRef sc
     \<and> (pr_scene r = sc \<and> (\<not> wrapperRef sc \<or> \<not> svgRef sc \<or> series p = [])
        \<or> (\<exists>hs. map h_type hs = map h_type (handles sc)
              \<and> handles (pr_scene r) = enter_append (height (dimensions p)) [W, E] hs))"
proof (cases "\<not> wrapperRef sc \<or> \<not> svgRef sc \<or> length (series p) = 0")
  case True
  with assms show ?thesis by (auto simp add: render_pass_def)
next
  case False
  then have ne: "series p \<noteq> []" by simp
  from pass_scales_nonempty [OF ne] obtain xy where ps: "pass_scales p z = Some xy"
    by blast
  show ?thesis
  proof (cases "brushDomain p \<noteq> None \<and> strict_eq prev (brushDomain p)")
    case True
    with assms False ps obtain l where l: "ls = Some l"
      by (cases ls) (auto simp add: render_pass_def Let_def)
    let ?hs = "fst (brush_move (fst xy)
        (scale_apply (fst xy) (fst (snd l)), scale_apply (fst xy) (snd (snd l))) (handles sc))"
    have "map h_type ?hs = map h_type (handles sc)"
      by (rule brush_move_types)
    moreover from assms False ps True l
    have "handles (pr_scene r) = enter_append (height (dimensions p)) [W, E] ?hs"
      and "wrapperRef (pr_scene r) = wrapperRef sc" and "svgRef (pr_scene r) = svgRef sc"
      by (auto simp add: render_pass_def Let_def draw_content_def)
    ultimately show ?thesis by blast
  next
    case nb: False
    with assms False ps
    have "handles (pr_scene r) = enter_append (height (dimensions p)) [W, E] (handles sc)"
      and "wrapperRef (pr_scene r) = wrapperRef sc" and "svgRef (pr_scene r) = svgRef sc"
      by (auto simp add: render_pass_def Let_def draw_content_def)
    then show ?thesis by blast
  qed
qed

lemma pass_first:
  assumes "render_pass p z ls prev sc = Inr r" and "wrapperRef sc" and "svgRef sc"
    and "series p \<noteq> []" and "handles sc = []"
  shows "handles (pr_scene r) =
      [new_handle (height (dimensions p)) W, new_handle (height (dimensions p)) E]
     \<and> handles_ok (pr_scene r)"
  using render_pass_scene [OF assms(1)] assms(2-)
  by (auto simp add: handles_ok_def new_handle_def)

lemma pass_later:
  assumes "render_pass p z ls prev sc = Inr r" and "handles_ok sc"
  shows "handles_ok (pr_scene r) \<and> length (handles (pr_scene r)) = length (handles sc)"
proof -
  from assms(2) have t: "map h_type (handles sc) = [W, E]" and "wrapperRef sc" and "svgRef sc"
    by (simp_all add: handles_ok_def)
  from t have len: "length (handles sc) = 2"
    by (metis length_map length_Cons list.size(3) numeral_2_eq_2)
  from render_pass_scene [OF assms(1)]
  consider "pr_scene r = sc"
    | hs where "map h_type hs = map h_type (handles sc)"
      and "handles (pr_scene r) = enter_append (height (dimensions p)) [W, E] hs"
      and "wrapperRef (pr_scene r) = wrapperRef sc" and "svgRef (pr_scene r) = svgRef sc"
    by blast
  then show ?thesis
  proof cases
    case 1
    with assms(2) show ?thesis by simp
  next
    case 2
    from 2(1) t have "map h_type hs = [W, E]" by simp
    from enter_append_types [OF this, of "height (dimensions p)"] 2(2)
    have tt: "map h_type (handles (pr_scene r)) = [W, E]" by simp
    then have "length (handles (pr_scene r)) = 2"
      by (metis length_map length_Cons list.size(3) numeral_2_eq_2)
    with tt 2(3,4) \<open>wrapperRef sc\<close> \<open>svgRef sc\<close> len show ?thesis
      by (simp add: handles_ok_def)
  qed
qed

lemma passes_later:
  assumes "render_passes ins sc = Inr sc'" and "handles_ok sc"
  shows "handles_ok sc'"
  using assms
proof (induction ins arbitrary: sc)
  case Nil
  then show ?case by simp
next
  case (Cons x xs)
  from Cons.prems(1) obtain r where
    r: "render_pass (fst x) (fst (snd x)) (fst (snd (snd x))) (snd (snd (snd x))) sc = Inr r"
    and rest: "render_passes xs (pr_scene r) = Inr sc'"
    by (auto split: sum.splits)
  from pass_later [OF r Cons.prems(2)] have "handles_ok (pr_scene r)" by simp
  from Cons.IH [OF rest this] show ?case .
qed

section \<open>Facts about the component\<close>

lemma sync_effect_Some:
  "sync_effect (Some b) ls = (if map_option snd ls = Some (snd b) then ls else Some b)"
  by (cases ls) (auto simp add: sync_effect_def isEqual_def)

lemma sync_effect_None: "sync_effect None ls = ls"
  by (simp add: sync_effect_def)

lemma sync_effect_defined: "sync_effect (Some b) ls \<noteq> None"
proof (cases "isEqual (Some b) ls")
  case True
  then have "ls \<noteq> None" by (cases ls) (simp_all add: isEqual_def)
  with True show ?thesis by (simp add: sync_effect_def)
next
  case False
  then show ?thesis by (simp add: sync_effect_def)
qed

text \<open>
  The state kept between renders never lets a pass raise: once the slot of
  \<^verbatim>\<open>usePrevious\<close> holds an array, the mirror effect of the same render has defined the
  local selection.
\<close>

lemma strict_eq_Some: "strict_eq a (Some b) \<Longrightarrow> a \<noteq> None"
  by (cases a) (simp_all add: strict_eq_def)

lemma render_step_ok:
  assumes "slot_ok st"
  shows "\<exists>st'. render_step p st = Inr st' \<and> slot_ok st'"
proof (cases "render_pass p (currentZoomState st) (localSelection st) (previousSlot st) (dom st)")
  case (Inl e)
  from render_pass_raises [OF Inl] obtain b where "localSelection st = None"
    and "brushDomain p = Some b" and "strict_eq (previousSlot st) (Some b)"
    by auto
  with assms strict_eq_Some have False
    by (auto simp add: slot_ok_def)
  then show ?thesis ..
next
  case (Inr r)
  have "previousSlot st' \<noteq> None \<longrightarrow> localSelection st' \<noteq> None"
    if "st' = st\<lparr>previousSlot := brushDomain p,
                  localSelection := sync_effect (brushDomain p) (localSelection st),
                  dom := pr_scene r, calls := calls st @ pr_emitted r\<rparr>" for st'
    using that sync_effect_defined by (cases "brushDomain p") auto
  with Inr show ?thesis
    by (simp add: render_step_def usePrevious_def slot_ok_def)
qed

lemma step_ok:
  assumes "slot_ok st"
  shows "\<exists>st'. step a st = Inr st' \<and> slot_ok st'"
proof (cases a)
  case (Render p)
  with render_step_ok [OF assms] show ?thesis by simp
next
  case (BrushEvent ev)
  with assms show ?thesis
    by (cases "brush_listener (dom st)") (simp_all add: slot_ok_def Let_def)
next
  case (ZoomEvent t)
  with assms show ?thesis
    by (cases "zoom_listener (dom st)") (simp_all add: slot_ok_def Let_def zoomed_def)
qed

lemma run_ok:
  assumes "slot_ok st"
  shows "\<exists>st'. run acts st = Inr st' \<and> slot_ok st'"
  using assms
proof (induction acts arbitrary: st)
  case Nil
  then show ?case by simp
next
  case (Cons a acts)
  from step_ok [OF Cons.prems] obtain st1 where "step a st = Inr st1" and "slot_ok st1"
    by blast
  with Cons.IH [of st1] show ?case by simp
qed

lemma render_step_slot:
  assumes "render_step p st = Inr st'"
  shows "previousSlot st' = brushDomain p
     \<and> localSelection st' = sync_effect (brushDomain p) (localSelection st)"
  using assms by (auto simp add: render_step_def usePrevious_def split: sum.splits)



section \<open>The claims\<close>

subsection \<open>C1\<close>



subsection \<open>C2\<close>

text \<open>
  C2, as stated, fails. The handler never writes the local selection, so after a gesture
  it still holds the brush domain of before. On the chart of the scenario, with the
  local selection \<open>[200, 600]\<close>, a drag released at pixels \<open>[50, 100]\<close> emits
  \<open>[100, 200]\<close>; when the parent supplies \<open>[100, 200]\<close> as \<^verbatim>\<open>brushDomain\<close> the mirror
  effect overwrites the local selection with it; and the pass of the render that
  follows, in which \<^verbatim>\<open>brushDomain\<close> is the array of the previous render, moves the
  brush to the local selection, which calls \<^verbatim>\<open>onBrushDomainChange\<close> with \<open>[100, 200]\<close>
  a second time.
\<close>

theorem gesture_value_fed_back_changes_selection:
  "snd (dispatch chart_scale
          (gesture (Some (Num 50, Num 50)) [Some (Num 50, Num 80)] (Some (Num 50, Num 100)))
          [new_handle 300 W, new_handle 300 E]) = [(Num 100, Num 200)]
   \<and> sync_effect (Some (2, (Num 100, Num 200))) (Some (1, (Num 200, Num 600))) =
       Some (2, (Num 100, Num 200))
   \<and> emitted_of
        (render_pass (chart_props (Some (2, (Num 100, Num 200)))) None
           (Some (2, (Num 100, Num 200))) (Some (2, (Num 100, Num 200))) chart_scene) =
      Some [(Num 100, Num 200)]"
proof -
  have "snd (brush_move chart_scale (Num 50, Num 100) [new_handle 300 W, new_handle 300 E]) =
      [(Num 100, Num 200)]"
    by (simp add: brush_move_emitted chart_scale_def scale_invert_def bimap_def normalize_def
        interpolateNumber_def)
  then have "emitted_of
        (render_pass (chart_props (Some (2, (Num 100, Num 200)))) None
           (Some (2, (Num 100, Num 200))) (Some (2, (Num 100, Num 200))) chart_scene) =
      Some [(Num 100, Num 200)]"
    by (simp add: emitted_of_def render_pass_def pass_scales_def getScales_def d3_min_def
        d3_max_def chart_props_def chart_scene_def mounted_scene_def strict_eq_def Let_def
        scale_apply_def bimap_def normalize_def interpolateNumber_def chart_scale_def)
  moreover have "snd (dispatch chart_scale
          (gesture (Some (Num 50, Num 50)) [Some (Num 50, Num 80)] (Some (Num 50, Num 100)))
          [new_handle 300 W, new_handle 300 E]) = [(Num 100, Num 200)]"
    by (simp add: gesture_emitted brushed_end_finite chart_scale_def scale_invert_def bimap_def
        normalize_def interpolateNumber_def)
  ultimately show ?thesis
    by (simp add: sync_effect_def isEqual_def)
qed

text \<open>
  C2, amended. When the parent supplies as \<^verbatim>\<open>brushDomain\<close> an array that is not the
  array of the previous render and whose contents equal those of the local selection,
  the local selection does not change and the render pass does not call
  \<^verbatim>\<open>onBrushDomainChange\<close>. When the contents differ from the local selection, which a
  gesture does not update, the local selection is overwritten with the supplied array.
\<close>

theorem equal_value_no_echo:
  assumes bd: "brushDomain p = Some (j, e)"
    and ls: "ls = Some (i, e)"
    and new: "\<not> strict_eq prev (brushDomain p)"
  shows "sync_effect (brushDomain p) ls = ls
     \<and> (\<exists>r. render_pass p z ls prev sc = Inr r \<and> pr_emitted r = [])
     \<and> (\<forall>other. map_option snd other \<noteq> Some e \<longrightarrow>
           sync_effect (brushDomain p) other = brushDomain p)"
proof -
  have "sync_effect (brushDomain p) ls = ls"
    by (simp add: bd ls sync_effect_def isEqual_def)
  moreover from new have "\<exists>r. render_pass p z ls prev sc = Inr r \<and> pr_emitted r = []"
    by (intro render_pass_no_branch) simp
  moreover have "\<forall>other. map_option snd other \<noteq> Some e \<longrightarrow>
           sync_effect (brushDomain p) other = brushDomain p"
    by (auto simp add: bd sync_effect_Some)
  ultimately show ?thesis by simp
qed

theorem equal_value_no_echo_witness:
  "sync_effect (brushDomain (chart_props (Some (2, (Num 200, Num 600)))))
      (Some (1, (Num 200, Num 600))) = Some (1, (Num 200, Num 600))
   \<and> (\<exists>r. render_pass (chart_props (Some (2, (Num 200, Num 600)))) None
             (Some (1, (Num 200, Num 600))) (Some (1, (Num 200, Num 600))) chart_scene = Inr r
          \<and> pr_emitted r = [])"
proof -
  let ?p = "chart_props (Some (2, (Num 200, Num 600)))"
  have h1: "brushDomain ?p = Some (2, (Num 200, Num 600))"
    by (simp add: chart_props_def)
  have h2: "Some (1::nat, (Num 200, Num 600)) = Some (1, (Num 200, Num 600))" by simp
  have h3: "\<not> strict_eq (Some (1, (Num 200, Num 600))) (brushDomain ?p)"
    by (simp add: chart_props_def strict_eq_def)
  from equal_value_no_echo [OF h1 h2 h3] show ?thesis by simp
qed

subsection \<open>C3\<close>

text \<open>
  C3, as stated, fails when \<^verbatim>\<open>brushDomain\<close> changes to \<^verbatim>\<open>undefined\<close>: the guard of
  line 135 skips the comparison, so a local selection \<open>[200, 600]\<close>, which differs from
  \<^verbatim>\<open>undefined\<close>, is not overwritten with it.
\<close>

theorem undefined_does_not_overwrite:
  "\<not> isEqual None (Some (1, (Num 200, Num 600)))
   \<and> sync_effect None (Some (1, (Num 200, Num 600))) = Some (1, (Num 200, Num 600))"
  by (simp add: isEqual_def sync_effect_def)

text \<open>
  C3, amended. When \<^verbatim>\<open>brushDomain\<close> changes to an array, the mirror effect compares its
  contents with those of the local selection (the identities play no part) and, when
  they differ, overwrites the local selection with \<^verbatim>\<open>brushDomain\<close>; when it changes to
  \<^verbatim>\<open>undefined\<close> the local selection stays as it is. So the sequence \<open>[200, 600]\<close>,
  \<^verbatim>\<open>undefined\<close>, \<open>[200, 600]\<close> (the two arrays the same object or not), with no gesture
  in between, leaves the local selection equal to \<open>[200, 600]\<close>, whatever it was before.
\<close>

theorem sync_by_value:
  "sync_effect (Some b) ls = (if map_option snd ls = Some (snd b) then ls else Some b)
   \<and> sync_effect None ls = ls
   \<and> map_option snd
       (fold sync_effect
          [Some (i, (Num 200, Num 600)), None, Some (j, (Num 200, Num 600))] ls) =
     Some (Num 200, Num 600)"
proof -
  have "map_option snd
       (fold sync_effect
          [Some (i, (Num 200, Num 600)), None, Some (j, (Num 200, Num 600))] ls) =
     Some (Num 200, Num 600)"
    by (cases ls) (simp_all add: sync_effect_Some sync_effect_None)
  then show ?thesis
    using sync_effect_Some [of b ls] sync_effect_None [of ls] by blast
qed

subsection \<open>C4\<close>




subsection \<open>C5\<close>



subsection \<open>C6\<close>

text \<open>
  C6, as stated, fails for a collapsed selection: the handler tests for a missing
  selection and for \<open>NaN\<close> bounds only. An \<^verbatim>\<open>end\<close> event with the pixel selection
  \<open>[100, 100]\<close> shows both handles (the \<^verbatim>\<open>display\<close> attribute removed) at pixel 100
  and calls \<^verbatim>\<open>onBrushDomainChange\<close> with \<open>[200, 200]\<close>.
\<close>

theorem collapsed_selection_not_suppressed:
  "brushed \<lparr>sc_domain = (0, 1000), sc_range = (0, 500)\<rparr>
     \<lparr>ev_type = End, ev_selection = Some (Num 100, Num 100)\<rparr>
     [new_handle 300 W, new_handle 300 E] =
   ([\<lparr>h_type = W, h_display = None, h_transform = Some (Some (Num 100), - 1),
      h_d = brushHandlePath 300\<rparr>,
     \<lparr>h_type = E, h_display = None, h_transform = Some (Some (Num 100), 1),
      h_d = brushHandlePath 300\<rparr>],
    [(Num 200, Num 200)])"
  by (simp add: brushed_def move_handles_def move_handle_def selection_at_def new_handle_def
      enumerate_eq_zip scale_invert_def bimap_def normalize_def interpolateNumber_def upt_rec)

text \<open>
  C6, amended. For every brush event, of any type, whose selection is missing or has a
  \<open>NaN\<close> bound, every handle is left with \<^verbatim>\<open>display: none\<close> and
  \<^verbatim>\<open>onBrushDomainChange\<close> is not called; a gesture whose \<^verbatim>\<open>end\<close> event carries such a
  selection calls it zero times in all.
\<close>

theorem degenerate_suppressed:
  assumes "s = None \<or> (\<exists>a b. s = Some (a, b) \<and> (isNaN a \<or> isNaN b))"
  shows "brushed xScale \<lparr>ev_type = t, ev_selection = s\<rparr> hs = (map hide hs, [])
     \<and> (\<forall>h \<in> set (map hide hs). h_display h = Some ''none'')
     \<and> snd (dispatch xScale (gesture s0 moves s) hs) = []"
proof -
  have b: "\<And>t hs. brushed xScale \<lparr>ev_type = t, ev_selection = s\<rparr> hs = (map hide hs, [])"
    using assms by (auto simp add: brushed_def)
  have "\<forall>h \<in> set (map hide hs). h_display h = Some ''none''"
    by (simp add: hide_def)
  moreover have "snd (dispatch xScale (gesture s0 moves s) hs) = []"
    by (simp add: gesture_emitted b)
  ultimately show ?thesis using b by simp
qed

theorem degenerate_suppressed_witness:
  "brushed \<lparr>sc_domain = (0, 1000), sc_range = (0, 500)\<rparr>
      \<lparr>ev_type = End, ev_selection = Some (NaN, Num 300)\<rparr>
      [new_handle 300 W, new_handle 300 E] =
     (map hide [new_handle 300 W, new_handle 300 E], [])
   \<and> snd (dispatch \<lparr>sc_domain = (0, 1000), sc_range = (0, 500)\<rparr>
        (gesture (Some (Num 100, Num 100)) [] (Some (NaN, Num 300)))
        [new_handle 300 W, new_handle 300 E]) = []"
  using degenerate_suppressed [of "Some (NaN, Num 300)"
      "\<lparr>sc_domain = (0, 1000), sc_range = (0, 500)\<rparr>" End
      "[new_handle 300 W, new_handle 300 E]" "Some (Num 100, Num 100)" "[]"]
  by simp

subsection \<open>C7\<close>

text \<open>
  C7, as stated, fails for zero-size dimensions: line 143 tests the two refs and the
  length of the series, never the dimensions. With width 0 and height 0 and a series of
  two entries the pass runs: it builds both scales (the horizontal range is \<open>[0, 0]\<close>),
  sets the root size, draws the area, the price line and the axis, installs the zoom
  listener and appends both handles.
\<close>

theorem zero_size_not_skipped:
  "render_pass
     \<lparr>series = [\<lparr>price0 = 0, activeLiquidity = 5\<rparr>, \<lparr>price0 = 1000, activeLiquidity = 7\<rparr>],
      current = 500,
      dimensions = \<lparr>width = 0, height = 0\<rparr>,
      margins = \<lparr>margin_top = 0, margin_right = 0, margin_bottom = 20, margin_left = 0\<rparr>,
      brushDomain = None\<rparr>
     None None None mounted_scene =
   Inr \<lparr>pr_scene =
          \<lparr>wrapperRef = True, svgRef = True, svg_size = Some (0, 0),
           area_path = Some [(Num 0, Num (- 20), Num (- 40 / 7)), (Num 0, Num (- 20), Num 0)],
           current_line = Some (Num 0), x_axis = Some (- 20, 0, 1000),
           zoom_listener = Some None, brush_listener = None,
           handles = [new_handle 0 W, new_handle 0 E]\<rparr>,
        pr_emitted = [],
        pr_scales =
          Some (\<lparr>sc_domain = (0, 1000), sc_range = (0, 0)\<rparr>,
                \<lparr>sc_domain = (0, 7), sc_range = (- 20, 0)\<rparr>)\<rparr>"
  by (simp add: render_pass_def pass_scales_def getScales_def d3_min_def d3_max_def
      draw_content_def mounted_scene_def strict_eq_def scale_apply_def bimap_def normalize_def
      interpolateNumber_def)

text \<open>
  C7, amended. A render pass is skipped exactly when the series is empty or one of the
  two refs is not attached, whatever the dimensions are. A skipped pass builds no
  scales, leaves the drawing as it was, calls nothing and raises no error.
\<close>

theorem empty_series_skips:
  "render_pass p z ls prev sc = Inr \<lparr>pr_scene = sc, pr_emitted = [], pr_scales = None\<rparr>
     \<longleftrightarrow> (series p = [] \<or> \<not> wrapperRef sc \<or> \<not> svgRef sc)"
  by (auto simp add: render_pass_def Let_def split: option.splits)

theorem empty_series_skips_witness:
  "render_pass
     \<lparr>series = [], current = 500,
      dimensions = \<lparr>width = 500, height = 300\<rparr>,
      margins = \<lparr>margin_top = 0, margin_right = 0, margin_bottom = 20, margin_left = 0\<rparr>,
      brushDomain = Some (1, (Num 200, Num 600))\<rparr>
     None None (Some (1, (Num 200, Num 600))) mounted_scene =
   Inr \<lparr>pr_scene = mounted_scene, pr_emitted = [], pr_scales = None\<rparr>"
  using empty_series_skips [of "\<lparr>series = [], current = 500,
      dimensions = \<lparr>width = 500, height = 300\<rparr>,
      margins = \<lparr>margin_top = 0, margin_right = 0, margin_bottom = 20, margin_left = 0\<rparr>,
      brushDomain = Some (1, (Num 200, Num 600))\<rparr>" None None "Some (1, (Num 200, Num 600))"
      mounted_scene]
  by simp

subsection \<open>C8\<close>




subsection \<open>C9\<close>

text \<open>
  C9. From the mounted component, after any sequence of renders (with any props), brush
  events and zoom events, no effect has raised; and for any props rendered next, when
  \<^verbatim>\<open>brushDomain\<close> is defined and identical to what \<^verbatim>\<open>usePrevious\<close> returns (the guard
  of line 272), the local selection that render closes over is defined, so
  \<^verbatim>\<open>localSelection.map\<close> is not evaluated on \<^verbatim>\<open>undefined\<close> and the render's effects
  complete.
\<close>

theorem branch_has_local_selection:
  "\<exists>st. run acts mounted = Inr st
     \<and> (\<forall>p :: props. brushDomain p \<noteq> None
            \<and> strict_eq (fst (usePrevious (previousSlot st) (brushDomain p))) (brushDomain p)
          \<longrightarrow> localSelection st \<noteq> None)
     \<and> (\<forall>p. \<exists>st'. step (Render p) st = Inr st')"
proof -
  have "slot_ok mounted"
    by (simp add: slot_ok_def mounted_def)
  from run_ok [OF this, of acts] obtain st where r: "run acts mounted = Inr st" and ok: "slot_ok st"
    by blast
  have "localSelection st \<noteq> None"
    if "brushDomain p \<noteq> None"
      and "strict_eq (fst (usePrevious (previousSlot st) (brushDomain p))) (brushDomain p)"
    for p :: props
  proof -
    from that obtain b where "brushDomain p = Some b" and "strict_eq (previousSlot st) (Some b)"
      by (auto simp add: usePrevious_def)
    with ok strict_eq_Some show ?thesis by (auto simp add: slot_ok_def)
  qed
  moreover have "\<exists>st'. step (Render p) st = Inr st'" for p
    using step_ok [OF ok, of "Render p"] by blast
  ultimately show ?thesis using r by blast
qed

theorem branch_has_local_selection_witness:
  "\<exists>st. run [Render (chart_props (Some (7, (Num 200, Num 600)))),
             Render (chart_props (Some (7, (Num 200, Num 600))))] mounted = Inr st
     \<and> brushDomain (chart_props (Some (7, (Num 200, Num 600)))) \<noteq> None
     \<and> strict_eq (fst (usePrevious (previousSlot st)
            (brushDomain (chart_props (Some (7, (Num 200, Num 600)))))))
          (brushDomain (chart_props (Some (7, (Num 200, Num 600)))))
     \<and> localSelection st = Some (7, (Num 200, Num 600))"
proof -
  let ?p = "chart_props (Some (7, (Num 200, Num 600)))"
  from branch_has_local_selection [of "[Render ?p, Render ?p]"]
  obtain st where r: "run [Render ?p, Render ?p] mounted = Inr st"
    and imp: "\<forall>p :: props. brushDomain p \<noteq> None
            \<and> strict_eq (fst (usePrevious (previousSlot st) (brushDomain p))) (brushDomain p)
          \<longrightarrow> localSelection st \<noteq> None"
    by (elim exE conjE)
  from r obtain s1 where s1: "render_step ?p mounted = Inr s1" and s2: "render_step ?p s1 = Inr st"
    by (auto split: sum.splits)
  have bd: "brushDomain ?p = Some (7, (Num 200, Num 600))"
    by (simp add: chart_props_def)
  from render_step_slot [OF s1] have l1: "localSelection s1 = Some (7, (Num 200, Num 600))"
    by (simp add: bd mounted_def sync_effect_def isEqual_def)
  from render_step_slot [OF s2] have slot: "previousSlot st = Some (7, (Num 200, Num 600))"
    and l2: "localSelection st = Some (7, (Num 200, Num 600))"
    by (simp_all add: bd l1 sync_effect_def isEqual_def)
  have g: "strict_eq (fst (usePrevious (previousSlot st) (brushDomain ?p))) (brushDomain ?p)"
    by (simp add: usePrevious_def slot bd strict_eq_def)
  from bd have d: "brushDomain ?p \<noteq> None" by simp
  from imp [rule_format, OF conjI [OF d g]] have "localSelection st \<noteq> None" .
  with r d g l2 show ?thesis by (intro exI [of _ st] conjI)
qed

subsection \<open>C10\<close>

text \<open>
  C10. Start from a drawing with no handle element and run any non-empty sequence of
  render passes, each with a series that is not empty and with any zoom state, local
  selection and previous domain, none of which raised. Afterwards the handle elements are
  exactly two, the first bound to \<open>w\<close> and the second to \<open>e\<close>; the first pass appended
  two elements and every later pass appended none. (Between passes the handler only sets
  attributes of the elements: lemma \<open>brushed_types\<close>.)
\<close>

theorem two_handles_after_passes:
  assumes run: "render_passes ins sc = Inr sc'"
    and ne: "ins \<noteq> []"
    and srs: "\<forall>x \<in> set ins. series (fst x) \<noteq> []"
    and refs: "wrapperRef sc" "svgRef sc"
    and none: "handles sc = []"
  shows "map h_type (handles sc') = [W, E]
     \<and> (\<forall>pre x post mid r.
           ins = pre @ x # post \<and> render_passes pre sc = Inr mid
           \<and> render_pass (fst x) (fst (snd x)) (fst (snd (snd x))) (snd (snd (snd x))) mid = Inr r
           \<longrightarrow> length (handles (pr_scene r)) =
                 length (handles mid) + (if pre = [] then 2 else 0))"
proof -
  have first: "handles_ok sc''" if "render_passes (y # ys) sc = Inr sc''"
    and "series (fst y) \<noteq> []" for y ys sc''
  proof -
    from that(1) obtain r where
      r: "render_pass (fst y) (fst (snd y)) (fst (snd (snd y))) (snd (snd (snd y))) sc = Inr r"
      and rest: "render_passes ys (pr_scene r) = Inr sc''"
      by (auto split: sum.splits)
    from pass_first [OF r refs that(2) none] have "handles_ok (pr_scene r)" by simp
    from passes_later [OF rest this] show ?thesis .
  qed
  from ne obtain y ys where ins: "ins = y # ys" by (cases ins) auto
  with srs have "series (fst y) \<noteq> []" by simp
  from first [OF run [unfolded ins] this] have end_ok: "map h_type (handles sc') = [W, E]"
    by (simp add: handles_ok_def)
  have "length (handles (pr_scene r)) = length (handles mid) + (if pre = [] then 2 else 0)"
    if split: "ins = pre @ x # post" and pre: "render_passes pre sc = Inr mid"
      and r: "render_pass (fst x) (fst (snd x)) (fst (snd (snd x))) (snd (snd (snd x))) mid = Inr r"
    for pre x post mid r
  proof (cases pre)
    case Nil
    with pre have mid: "mid = sc" by simp
    from split srs have "series (fst x) \<noteq> []" by simp
    from pass_first [OF r [unfolded mid] refs this none] show ?thesis
      by (simp add: Nil mid none)
  next
    case (Cons z zs)
    from split srs Cons have "series (fst z) \<noteq> []" by simp
    from first [OF pre [unfolded Cons] this] have "handles_ok mid" .
    from pass_later [OF r this] show ?thesis by (simp add: Cons)
  qed
  with end_ok show ?thesis by blast
qed

theorem two_handles_after_passes_witness:
  "\<exists>sc'. render_passes
        [(chart_props (Some (7, (Num 200, Num 600))), None, None, None),
         (chart_props (Some (7, (Num 200, Num 600))), None, Some (7, (Num 200, Num 600)),
          Some (7, (Num 200, Num 600)))]
        mounted_scene = Inr sc'
     \<and> map h_type (handles sc') = [W, E]"
proof -
  let ?p = "chart_props (Some (7, (Num 200, Num 600)))"
  let ?ins = "[(?p, None, None, None),
         (?p, None, Some (7, (Num 200, Num 600)), Some (7, (Num 200, Num 600)))]"
  have "\<exists>r. render_pass ?p None None None mounted_scene = Inr r"
    by (rule render_pass_total) (simp add: chart_props_def strict_eq_def)
  then obtain r1 where r1: "render_pass ?p None None None mounted_scene = Inr r1" ..
  have "\<exists>r. render_pass ?p None (Some (7, (Num 200, Num 600)))
      (Some (7, (Num 200, Num 600))) (pr_scene r1) = Inr r"
    by (rule render_pass_total) simp
  then obtain r2 where r2: "render_pass ?p None (Some (7, (Num 200, Num 600)))
      (Some (7, (Num 200, Num 600))) (pr_scene r1) = Inr r2" ..
  have h1: "render_passes ?ins mounted_scene = Inr (pr_scene r2)"
    by (simp add: r1 r2)
  have h2: "?ins \<noteq> []" by simp
  have h3: "\<forall>x \<in> set ?ins. series (fst x) \<noteq> []"
    by (simp add: chart_props_def)
  have h4: "wrapperRef mounted_scene" and h5: "svgRef mounted_scene"
    and h6: "handles mounted_scene = []"
    by (simp_all add: mounted_scene_def)
  from two_handles_after_passes [OF h1 h2 h3 h4 h5 h6]
  have "map h_type (handles (pr_scene r2)) = [W, E]" ..
  with h1 show ?thesis by (intro exI [of _ "pr_scene r2"] conjI)
qed

end
